theory Spec2Isabelle
  imports Complex_Main
begin

section \<open>Values of the host language\<close>

text \<open>
  A JavaScript \<open>number\<close> is modelled as a real: every finite double is a rational,
  and \<open>Math.trunc\<close>, \<open>Math.min\<close>, \<open>Math.max\<close> and the comparisons are exact on
  finite doubles. \<open>NaN\<close> and the two infinities have no counterpart in the model.
\<close>

type_synonym number = real

definition Math_trunc :: "number \<Rightarrow> int" where
  "Math_trunc x = (if x < 0 then \<lceil>x\<rceil> else \<lfloor>x\<rfloor>)"

text \<open>\<open>a || b\<close> on an optional number: \<open>undefined\<close> and \<open>0\<close> are falsy.\<close>

definition truthy :: "number option \<Rightarrow> bool" where
  "truthy v = (case v of None \<Rightarrow> False | Some x \<Rightarrow> x \<noteq> 0)"

definition or_else :: "number option \<Rightarrow> number \<Rightarrow> number" where
  "or_else v d = (case v of None \<Rightarrow> d | Some x \<Rightarrow> if x \<noteq> 0 then x else d)"

section \<open>platformAccessory.ts: the button accessory handler\<close>

type_synonym uuid = string

text \<open>
  A \<open>PlatformAccessory\<close> of the host framework, as far as the plugin reads and writes it:
  its UUID, its display name and \<open>context.device.name\<close> (absent until the plugin sets it).
  The registry and the handlers only store a button name, compare it and pass it to the
  UUID generator, so the type \<open>'n\<close> of names is a parameter of the records. The examples
  use ASCII names written as \<open>string\<close>; the routes below take names as lists of Unicode
  code points, any string of the configuration.
\<close>

record 'n accessory =
  UUID :: uuid
  displayName :: 'n
  context_device :: "'n option"

datatype ProgrammableSwitchEvent = SINGLE_PRESS | DOUBLE_PRESS | LONG_PRESS

datatype StatusLowBattery = BATTERY_LEVEL_NORMAL | BATTERY_LEVEL_LOW

text \<open>
  The calls a handler makes on the characteristics of its two services, in the order
  they are made: \<open>updateValue\<close> on BatteryLevel and on StatusLowBattery of the battery
  service, \<open>sendEventNotification\<close> on ProgrammableSwitchEvent of the switch service.
  Log lines are not modelled.
\<close>

datatype hap_call =
    UpdateValue_BatteryLevel int
  | UpdateValue_StatusLowBattery StatusLowBattery
  | SendEventNotification ProgrammableSwitchEvent

record 'n ButtonPlatformAccessory =
  accessory :: "'n accessory"
  batteryLevel :: int
  hap_calls :: "hap_call list"

text \<open>
  The constructor, with the field initialiser \<open>batteryLevel = 100\<close>. It also names the
  two services, fills in the accessory information and installs the read handlers
  below; none of these is an \<open>updateValue\<close> or a notification, and they are not recorded.
\<close>

definition new_handler :: "'n accessory \<Rightarrow> 'n ButtonPlatformAccessory" where
  "new_handler a = \<lparr>accessory = a, batteryLevel = 100, hap_calls = []\<rparr>"

definition updateBattery ::
  "number \<Rightarrow> 'n ButtonPlatformAccessory \<Rightarrow> 'n ButtonPlatformAccessory" where
  "updateBattery level h =
     (let b = max 0 (min 100 (Math_trunc level));
          isLowBattery = (b < 15)
      in h\<lparr>batteryLevel := b,
            hap_calls := hap_calls h @
              [UpdateValue_BatteryLevel b,
               UpdateValue_StatusLowBattery
                 (if isLowBattery then BATTERY_LEVEL_LOW else BATTERY_LEVEL_NORMAL)]\<rparr>)"

text \<open>The \<open>switch\<close> of \<open>triggerEvent\<close>; \<open>None\<close> is its \<open>default\<close> branch.\<close>

definition switch_eventType :: "string \<Rightarrow> ProgrammableSwitchEvent option" where
  "switch_eventType eventType =
     (if eventType = ''click'' \<or> eventType = ''single-press'' then Some SINGLE_PRESS
      else if eventType = ''double-click'' \<or> eventType = ''double-press'' then Some DOUBLE_PRESS
      else if eventType = ''hold'' \<or> eventType = ''long-press'' then Some LONG_PRESS
      else None)"

definition triggerEvent ::
  "string \<Rightarrow> number option \<Rightarrow> 'n ButtonPlatformAccessory \<Rightarrow> 'n ButtonPlatformAccessory" where
  "triggerEvent eventType level h =
     (let h1 = (case level of None \<Rightarrow> h | Some l \<Rightarrow> updateBattery l h)
      in case switch_eventType eventType of
           None \<Rightarrow> h1
         | Some event \<Rightarrow> h1\<lparr>hap_calls := hap_calls h1 @ [SendEventNotification event]\<rparr>)"

definition handleBatteryLevelGet :: "'n ButtonPlatformAccessory \<Rightarrow> int" where
  "handleBatteryLevelGet h = batteryLevel h"

definition handleStatusLowBatteryGet :: "'n ButtonPlatformAccessory \<Rightarrow> StatusLowBattery" where
  "handleStatusLowBatteryGet h =
     (if batteryLevel h < 15 then BATTERY_LEVEL_LOW else BATTERY_LEVEL_NORMAL)"

definition notifications :: "'n ButtonPlatformAccessory \<Rightarrow> ProgrammableSwitchEvent list" where
  "notifications h =
     concat (map (\<lambda>c. case c of SendEventNotification e \<Rightarrow> [e] | _ \<Rightarrow> []) (hap_calls h))"

section \<open>platform.ts: configuration and the accessory registry\<close>

record 'n ButtonConfig =
  config_port :: "number option"
  config_buttons :: "'n list option"

text \<open>
  The platform object. The three \<open>api_\<close> fields record the accessories passed to
  \<open>api.updatePlatformAccessories\<close>, \<open>api.registerPlatformAccessories\<close> and
  \<open>api.unregisterPlatformAccessories\<close>, each in call order.
\<close>

record 'n ButtonPlatform =
  accessories :: "'n accessory list"
  accessoryHandlers :: "uuid \<rightharpoonup> 'n ButtonPlatformAccessory"
  port :: number
  buttons :: "'n list"
  api_updated :: "'n accessory list"
  api_registered :: "'n accessory list"
  api_unregistered :: "'n accessory list"

text \<open>\<open>config.buttons || []\<close>: an array, also an empty one, is truthy.\<close>

definition configured :: "'n ButtonConfig \<Rightarrow> 'n list" where
  "configured config = (case config_buttons config of None \<Rightarrow> [] | Some bs \<Rightarrow> bs)"

text \<open>The constructor, with \<open>config.port || 3001\<close>.\<close>

definition ButtonPlatform_new :: "'n ButtonConfig \<Rightarrow> 'n ButtonPlatform" where
  "ButtonPlatform_new config =
     \<lparr>accessories = [], accessoryHandlers = Map.empty,
      port = or_else (config_port config) 3001,
      buttons = configured config,
      api_updated = [], api_registered = [], api_unregistered = []\<rparr>"

definition configureAccessory :: "'n accessory \<Rightarrow> 'n ButtonPlatform \<Rightarrow> 'n ButtonPlatform" where
  "configureAccessory a p = p\<lparr>accessories := accessories p @ [a]\<rparr>"

text \<open>
  \<open>existingAccessory.context.device = ...\<close> writes to the object that \<open>find\<close> returned,
  which is the first element of \<open>this.accessories\<close> with that UUID.
\<close>

fun update_first :: "('a \<Rightarrow> bool) \<Rightarrow> ('a \<Rightarrow> 'a) \<Rightarrow> 'a list \<Rightarrow> 'a list" where
  "update_first P f [] = []"
| "update_first P f (x # xs) = (if P x then f x # xs else x # update_first P f xs)"

text \<open>
  One round of the first loop of \<open>discoverDevices\<close>. The UUID generator of the host
  framework, \<open>api.hap.uuid.generate\<close>, is the parameter \<open>gen\<close>.
\<close>

definition platformAccessory :: "'n \<Rightarrow> uuid \<Rightarrow> 'n accessory" where
  "platformAccessory name uuid = \<lparr>UUID = uuid, displayName = name, context_device = None\<rparr>"

definition discover_button ::
  "('n \<Rightarrow> uuid) \<Rightarrow> 'n \<Rightarrow> 'n ButtonPlatform \<Rightarrow> 'n ButtonPlatform" where
  "discover_button gen buttonName p =
     (let uuid = gen buttonName in
      case List.find (\<lambda>a. UUID a = uuid) (accessories p) of
        Some existingAccessory \<Rightarrow>
          (let refreshed = existingAccessory\<lparr>context_device := Some buttonName\<rparr> in
           p\<lparr>accessories :=
                update_first (\<lambda>a. UUID a = uuid) (\<lambda>a. a\<lparr>context_device := Some buttonName\<rparr>)
                  (accessories p),
              api_updated := api_updated p @ [refreshed],
              accessoryHandlers := (accessoryHandlers p)(uuid \<mapsto> new_handler refreshed)\<rparr>)
      | None \<Rightarrow>
          (let created = (platformAccessory buttonName uuid)\<lparr>context_device := Some buttonName\<rparr> in
           p\<lparr>accessoryHandlers := (accessoryHandlers p)(uuid \<mapsto> new_handler created),
              api_registered := api_registered p @ [created]\<rparr>))"

fun discover_loop ::
  "('n \<Rightarrow> uuid) \<Rightarrow> 'n list \<Rightarrow> 'n ButtonPlatform \<Rightarrow> 'n ButtonPlatform" where
  "discover_loop gen [] p = p"
| "discover_loop gen (buttonName # rest) p = discover_loop gen rest (discover_button gen buttonName p)"

fun remove_loop :: "'n accessory list \<Rightarrow> 'n ButtonPlatform \<Rightarrow> 'n ButtonPlatform" where
  "remove_loop [] p = p"
| "remove_loop (a # rest) p =
     remove_loop rest
       (p\<lparr>accessoryHandlers := (accessoryHandlers p)(UUID a := None),
          api_unregistered := api_unregistered p @ [a]\<rparr>)"

definition discoverDevices :: "('n \<Rightarrow> uuid) \<Rightarrow> 'n ButtonPlatform \<Rightarrow> 'n ButtonPlatform" where
  "discoverDevices gen p =
     (let p1 = discover_loop gen (buttons p) p;
          configuredUUIDs = map gen (buttons p1);
          accessoriesToRemove = filter (\<lambda>a. UUID a \<notin> set configuredUUIDs) (accessories p1)
      in remove_loop accessoriesToRemove p1)"

text \<open>
  A start of the process: the constructor, one \<open>configureAccessory\<close> call of the host
  framework per accessory of its cache, then \<open>discoverDevices\<close> on \<open>didFinishLaunching\<close>.
\<close>

definition launch ::
  "('n \<Rightarrow> uuid) \<Rightarrow> 'n ButtonConfig \<Rightarrow> 'n accessory list \<Rightarrow> 'n ButtonPlatform" where
  "launch gen config cache =
     discoverDevices gen (foldl (\<lambda>p a. configureAccessory a p) (ButtonPlatform_new config) cache)"

text \<open>
  Modelled from the spec: the accessory set the host framework (homebridge, which is not
  part of the repository) persists after a run. A record is created when it is
  registered, updated in place and deleted when it is unregistered: the cache holds the
  restored accessories that were not unregistered, followed by the registered ones.
\<close>

definition persisted_after :: "'n ButtonPlatform \<Rightarrow> 'n accessory list" where
  "persisted_after p =
     filter (\<lambda>a. a \<notin> set (api_unregistered p)) (accessories p) @ api_registered p"

text \<open>
  Two notions for the proofs. \<open>strip_context\<close> forgets the context of an accessory; the
  first loop of \<open>discoverDevices\<close> changes nothing else of a cached accessory.
  \<open>wrapped gen accs buttonName\<close> is the accessory that the handler of a button wraps when
  the loop meets the button with the accessory list \<open>accs\<close>.
\<close>

definition strip_context :: "'n accessory \<Rightarrow> 'n accessory" where
  "strip_context a = a\<lparr>context_device := None\<rparr>"

definition wrapped :: "('n \<Rightarrow> uuid) \<Rightarrow> 'n accessory list \<Rightarrow> 'n \<Rightarrow> 'n accessory" where
  "wrapped gen accs buttonName =
     (case List.find (\<lambda>a. UUID a = gen buttonName) accs of
        Some existingAccessory \<Rightarrow> existingAccessory\<lparr>context_device := Some buttonName\<rparr>
      | None \<Rightarrow> (platformAccessory buttonName (gen buttonName))\<lparr>context_device := Some buttonName\<rparr>)"

section \<open>platform.ts: routes and request validation\<close>

text \<open>
  For the path of a route a button name is the list of its Unicode code points. The
  flag \<open>u\<close> makes the regular expression work on code points, and \<open>toLowerCase\<close> maps
  code points as well. \<open>ascii\<close> gives the code points of an ASCII literal.
\<close>

type_synonym code_points = "nat list"

definition ascii :: "string \<Rightarrow> code_points" where
  "ascii s = map of_char s"

text \<open>
  \<open>toLowerCase\<close>, code point by code point. The mapping is the one of Unicode on ASCII
  and Latin-1 (A-Z and 192 to 222 without 215 move up by 32), on U+0130 (304), whose
  lower-case form is the two code points "i" (105) and U+0307 (775), and on the Kelvin
  sign U+212A (8490), whose lower-case form is "k" (107). U+017F (383, the long s) is a
  lower-case letter and stays. Every other code point is left as it is: where Unicode
  gives it a lower-case form, that form is again one code point, and neither of the two
  is a letter a-z, a digit, U+017F or U+212A, so the path below is the same.
\<close>

definition toLowerCase_cp :: "nat \<Rightarrow> code_points" where
  "toLowerCase_cp c =
     (if (65 \<le> c \<and> c \<le> 90) \<or> (192 \<le> c \<and> c \<le> 222 \<and> c \<noteq> 215) then [c + 32]
      else if c = 304 then [105, 775]
      else if c = 8490 then [107]
      else [c])"

definition toLowerCase :: "code_points \<Rightarrow> code_points" where
  "toLowerCase s = concat (map toLowerCase_cp s)"

text \<open>
  The class \<open>[^a-z0-9]\<close> under the flags \<open>giu\<close>. With \<open>i\<close> and \<open>u\<close> a code point
  belongs to \<open>[a-z0-9]\<close> when its simple case folding does: these are the digits, the
  letters a-z and A-Z, U+017F (folds to "s") and U+212A (folds to "k"). The negated class
  matches every other code point, and \<open>replace\<close> with \<open>g\<close> puts "-" (45) for each match.
\<close>

definition in_class :: "nat \<Rightarrow> bool" where
  "in_class c =
     (\<not> ((97 \<le> c \<and> c \<le> 122) \<or> (65 \<le> c \<and> c \<le> 90) \<or> (48 \<le> c \<and> c \<le> 57)
          \<or> c = 383 \<or> c = 8490))"

definition replace_class :: "code_points \<Rightarrow> code_points" where
  "replace_class s = map (\<lambda>c. if in_class c then 45 else c) s"

definition generateButtonUri :: "code_points \<Rightarrow> code_points" where
  "generateButtonUri buttonName = ascii ''/button-'' @ replace_class (toLowerCase buttonName)"

text \<open>The code points of \<open>[a-z0-9]\<close>, for the statements about paths.\<close>

definition is_az09 :: "nat \<Rightarrow> bool" where
  "is_az09 c = (c \<in> set (ascii ''abcdefghijklmnopqrstuvwxyz0123456789''))"

text \<open>
  An inbound request, as far as the route reads it: \<open>req.query.event\<close>,
  \<open>req.body.event\<close>, \<open>req.headers.event\<close> and the header \<open>button-battery-level\<close>,
  each absent or a string.
\<close>

record request =
  query_event :: "string option"
  body_event :: "string option"
  header_event :: "string option"
  header_battery :: "string option"

definition validEvents :: "string list" where
  "validEvents = [''click'', ''double-click'', ''hold'', ''single-press'', ''double-press'', ''long-press'']"

text \<open>
  The validators of express-validator that the route uses. A validator sees the field as
  a string, an absent field as the empty string. \<open>isInt\<close> is the one of validator.js
  with \<open>min\<close> and \<open>max\<close>: an optional sign and one or more digits, and the value within
  the bounds. \<open>Number\<close> is given on the strings of that shape, the only ones it is
  applied to.
\<close>

definition toString :: "string option \<Rightarrow> string" where
  "toString v = (case v of None \<Rightarrow> [] | Some s \<Rightarrow> s)"

definition isIn :: "string option \<Rightarrow> string list \<Rightarrow> bool" where
  "isIn v xs = (toString v \<in> set xs)"

definition isDigit :: "char \<Rightarrow> bool" where
  "isDigit c = (c \<in> set ''0123456789'')"

definition stripSign :: "string \<Rightarrow> string" where
  "stripSign s =
     (case s of [] \<Rightarrow> [] | c # cs \<Rightarrow> if c = CHR ''-'' \<or> c = CHR ''+'' then cs else s)"

definition intLeadingZeroes :: "string \<Rightarrow> bool" where
  "intLeadingZeroes s = (stripSign s \<noteq> [] \<and> list_all isDigit (stripSign s))"

definition digitsValue :: "string \<Rightarrow> nat" where
  "digitsValue s = foldl (\<lambda>n c. 10 * n + (of_char c - 48)) 0 s"

definition Number :: "string \<Rightarrow> number" where
  "Number s =
     (case s of
        [] \<Rightarrow> 0
      | c # cs \<Rightarrow> if c = CHR ''-'' then - of_nat (digitsValue cs) else of_nat (digitsValue (stripSign s)))"

definition isInt :: "string \<Rightarrow> number \<Rightarrow> number \<Rightarrow> bool" where
  "isInt str mn mx = (intLeadingZeroes str \<and> mn \<le> Number str \<and> Number str \<le> mx)"

datatype location = Query | Body | Header

text \<open>A failed field: where it was read, its name and the value found.\<close>

datatype field_error = FieldError location string "string option"

datatype validation_error =
    AlternativeValidationError "field_error list"
  | FieldValidationError field_error

definition check_event :: "location \<Rightarrow> string option \<Rightarrow> field_error list" where
  "check_event loc v = (if isIn v validEvents then [] else [FieldError loc ''event'' v])"

text \<open>\<open>oneOf\<close> passes when one of its chains has no error, and reports one error otherwise.\<close>

definition oneOf :: "field_error list list \<Rightarrow> validation_error list" where
  "oneOf alternatives =
     (if list_ex (\<lambda>errs. errs = []) alternatives then [] else [AlternativeValidationError (concat alternatives)])"

definition check_battery :: "string option \<Rightarrow> validation_error list" where
  "check_battery v =
     (case v of
        None \<Rightarrow> []
      | Some s \<Rightarrow> if isInt s 0 100 then [] else [FieldValidationError (FieldError Header ''button-battery-level'' v)])"

definition validationResult :: "request \<Rightarrow> validation_error list" where
  "validationResult req =
     oneOf [check_event Query (query_event req),
            check_event Body (body_event req),
            check_event Header (header_event req)]
     @ check_battery (header_battery req)"

datatype body = Text string | Json "validation_error list"

datatype response = Response nat body

text \<open>\<open>a ?? b\<close>: the left operand unless it is absent.\<close>

definition nullish :: "'a option \<Rightarrow> 'a option \<Rightarrow> 'a option" where
  "nullish a b = (case a of None \<Rightarrow> b | Some x \<Rightarrow> Some x)"

definition request_event :: "request \<Rightarrow> string option" where
  "request_event req = nullish (nullish (query_event req) (body_event req)) (header_event req)"

text \<open>\<open>batteryLevel ? Number(batteryLevel) : undefined\<close>: the empty string is falsy.\<close>

definition request_battery :: "request \<Rightarrow> number option" where
  "request_battery req =
     (case header_battery req of
        None \<Rightarrow> None
      | Some s \<Rightarrow> if s = [] then None else Some (Number s))"

text \<open>
  The cast \<open>as string\<close> hides that the event can be \<open>undefined\<close>; \<open>triggerEvent\<close> then
  takes the \<open>default\<close> branch of its \<open>switch\<close> after the battery update.
\<close>

definition triggerEvent_cast ::
  "string option \<Rightarrow> number option \<Rightarrow> 'n ButtonPlatformAccessory \<Rightarrow> 'n ButtonPlatformAccessory" where
  "triggerEvent_cast event level h =
     (case event of
        Some e \<Rightarrow> triggerEvent e level h
      | None \<Rightarrow> (case level of None \<Rightarrow> h | Some l \<Rightarrow> updateBattery l h))"

text \<open>The callback that \<open>setupRoute\<close> registers for a button name.\<close>

definition route_handler ::
  "('n \<Rightarrow> uuid) \<Rightarrow> 'n \<Rightarrow> request \<Rightarrow> 'n ButtonPlatform \<Rightarrow> response \<times> 'n ButtonPlatform" where
  "route_handler gen buttonName req p =
     (let errors = validationResult req in
      if errors \<noteq> [] then (Response 422 (Json errors), p)
      else
        let event = request_event req;
            level = request_battery req;
            uuid = gen buttonName
        in case List.find (\<lambda>acc. UUID acc = uuid) (accessories p) of
             None \<Rightarrow> (Response 404 (Text ''Button not found.''), p)
           | Some acc \<Rightarrow>
               (case accessoryHandlers p uuid of
                  None \<Rightarrow> (Response 500 (Text ''Server error.''), p)
                | Some buttonAccessory \<Rightarrow>
                    (Response 200 (Text ''OK''),
                     p\<lparr>accessoryHandlers :=
                          (accessoryHandlers p)(uuid \<mapsto> triggerEvent_cast event level buttonAccessory)\<rparr>)))"

record route =
  uri :: code_points
  route_button :: code_points

definition setupRoute :: "code_points \<Rightarrow> route" where
  "setupRoute buttonName = \<lparr>uri = generateButtonUri buttonName, route_button = buttonName\<rparr>"

definition setupExpressServer :: "code_points ButtonPlatform \<Rightarrow> route list" where
  "setupExpressServer p = map setupRoute (buttons p)"

section \<open>The battery level\<close>

lemma Math_trunc_toward_zero:
  "\<bar>of_int (Math_trunc x)\<bar> \<le> \<bar>x\<bar> \<and> \<bar>x - of_int (Math_trunc x)\<bar> < 1"
  unfolding Math_trunc_def by (cases "x < 0") (simp_all; linarith)+

text \<open>
  Claim C5. \<open>updateBattery\<close> truncates the raw level toward zero (the truncated value is
  an integer no larger in magnitude than the input and less than 1 away from it), clamps
  it into 0..100, stores it as the current level, passes it to the BatteryLevel
  characteristic, and reports low battery exactly when the clamped level is below 15.
  On -5, 0, 15, 14, 100 and 150 the stored levels are 0, 0, 15, 14, 100 and 100, and the
  status is low, low, normal, low, normal and normal.
\<close>

theorem updateBattery_truncates_and_clamps:
  "batteryLevel (updateBattery x h) = max 0 (min 100 (Math_trunc x))
   \<and> \<bar>of_int (Math_trunc x)\<bar> \<le> \<bar>x\<bar> \<and> \<bar>x - of_int (Math_trunc x)\<bar> < 1
   \<and> 0 \<le> batteryLevel (updateBattery x h) \<and> batteryLevel (updateBattery x h) \<le> 100
   \<and> handleBatteryLevelGet (updateBattery x h) = max 0 (min 100 (Math_trunc x))
   \<and> hap_calls (updateBattery x h) = hap_calls h @
        [UpdateValue_BatteryLevel (max 0 (min 100 (Math_trunc x))),
         UpdateValue_StatusLowBattery
           (if max 0 (min 100 (Math_trunc x)) < 15 then BATTERY_LEVEL_LOW else BATTERY_LEVEL_NORMAL)]
   \<and> (handleStatusLowBatteryGet (updateBattery x h) = BATTERY_LEVEL_LOW)
        = (batteryLevel (updateBattery x h) < 15)
   \<and> accessory (updateBattery x h) = accessory h
   \<and> map (\<lambda>x. batteryLevel (updateBattery x h)) [-5, 0, 15, 14, 100, 150]
        = [0, 0, 15, 14, 100, 100]
   \<and> map (\<lambda>x. handleStatusLowBatteryGet (updateBattery x h)) [-5, 0, 15, 14, 100, 150]
        = [BATTERY_LEVEL_LOW, BATTERY_LEVEL_LOW, BATTERY_LEVEL_NORMAL, BATTERY_LEVEL_LOW,
           BATTERY_LEVEL_NORMAL, BATTERY_LEVEL_NORMAL]"
proof -
  have examples: "map Math_trunc [-5, 0, 15, 14, 100, 150] = [-5, 0, 15, 14, 100, 150]"
    by (simp add: Math_trunc_def)
  have fields: "batteryLevel (updateBattery y h) = max 0 (min 100 (Math_trunc y))"
    "handleStatusLowBatteryGet (updateBattery y h)
       = (if max 0 (min 100 (Math_trunc y)) < 15 then BATTERY_LEVEL_LOW else BATTERY_LEVEL_NORMAL)" for y
    by (simp_all add: updateBattery_def Let_def handleStatusLowBatteryGet_def)
  have calls: "hap_calls (updateBattery x h) = hap_calls h @
        [UpdateValue_BatteryLevel (max 0 (min 100 (Math_trunc x))),
         UpdateValue_StatusLowBattery
           (if max 0 (min 100 (Math_trunc x)) < 15 then BATTERY_LEVEL_LOW else BATTERY_LEVEL_NORMAL)]"
    "accessory (updateBattery x h) = accessory h"
    by (simp_all add: updateBattery_def Let_def)
  have low: "(handleStatusLowBatteryGet (updateBattery x h) = BATTERY_LEVEL_LOW)
        = (batteryLevel (updateBattery x h) < 15)"
    by (simp add: handleStatusLowBatteryGet_def)
  have range: "0 \<le> batteryLevel (updateBattery x h)" "batteryLevel (updateBattery x h) \<le> 100"
    by (simp_all add: fields)
  have six: "map (\<lambda>x. batteryLevel (updateBattery x h)) [-5, 0, 15, 14, 100, 150]
        = [0, 0, 15, 14, 100, 100]"
    "map (\<lambda>x. handleStatusLowBatteryGet (updateBattery x h)) [-5, 0, 15, 14, 100, 150]
        = [BATTERY_LEVEL_LOW, BATTERY_LEVEL_LOW, BATTERY_LEVEL_NORMAL, BATTERY_LEVEL_LOW,
           BATTERY_LEVEL_NORMAL, BATTERY_LEVEL_NORMAL]"
    using examples by (simp_all add: fields)
  have stored: "handleBatteryLevelGet (updateBattery x h) = max 0 (min 100 (Math_trunc x))"
    by (simp add: handleBatteryLevelGet_def fields)
  from fields(1) [of x] Math_trunc_toward_zero [of x] range stored calls low six
  show ?thesis
    by (intro conjI) blast+
qed

section \<open>Events of a handler\<close>

lemma notifications_append:
  "notifications (h\<lparr>hap_calls := hap_calls h @ cs\<rparr>)
     = notifications h @ concat (map (\<lambda>c. case c of SendEventNotification e \<Rightarrow> [e] | _ \<Rightarrow> []) cs)"
  by (simp add: notifications_def)

lemma notifications_updateBattery: "notifications (updateBattery l h) = notifications h"
  by (simp add: updateBattery_def Let_def notifications_def)

text \<open>
  Claim C6. The classification of an event token is a function of the token alone:
  "click" and "single-press" give a single press, "double-click" and "double-press" a
  double press, "hold" and "long-press" a long press, and every other string (the match
  is exact and case-sensitive) gives none. \<open>triggerEvent\<close> sends exactly the
  notification of the classified press, and none for an unknown token.
\<close>

theorem switch_eventType_classifies:
  "switch_eventType ''click'' = Some SINGLE_PRESS
   \<and> switch_eventType ''single-press'' = Some SINGLE_PRESS
   \<and> switch_eventType ''double-click'' = Some DOUBLE_PRESS
   \<and> switch_eventType ''double-press'' = Some DOUBLE_PRESS
   \<and> switch_eventType ''hold'' = Some LONG_PRESS
   \<and> switch_eventType ''long-press'' = Some LONG_PRESS
   \<and> (eventType \<notin> {''click'', ''single-press'', ''double-click'', ''double-press'', ''hold'', ''long-press''}
        \<longrightarrow> switch_eventType eventType = None)
   \<and> notifications (triggerEvent eventType level h)
        = notifications h @ (case switch_eventType eventType of None \<Rightarrow> [] | Some event \<Rightarrow> [event])"
proof -
  have "notifications (triggerEvent eventType level h)
        = notifications h @ (case switch_eventType eventType of None \<Rightarrow> [] | Some event \<Rightarrow> [event])"
    by (cases level; cases "switch_eventType eventType")
      (simp_all add: triggerEvent_def Let_def notifications_append notifications_updateBattery)
  then show ?thesis
    by (simp add: switch_eventType_def)
qed

text \<open>
  The token "Click" differs from "click" in case only and is unknown.
\<close>

theorem switch_eventType_classifies_witness:
  "''Click'' \<notin> {''click'', ''single-press'', ''double-click'', ''double-press'', ''hold'', ''long-press''}
   \<and> switch_eventType ''Click'' = None"
  using switch_eventType_classifies
    [where eventType = "''Click''" and level = None
       and h = "new_handler (platformAccessory ''Door'' ''d1'')"]
  by simp

text \<open>
  Claim C7. When the event token is unknown, \<open>triggerEvent\<close> sends no press
  notification and does nothing further; a battery level that was supplied is still
  stored and passed to the BatteryLevel and StatusLowBattery characteristics.
\<close>

theorem unknown_event_keeps_battery_update:
  assumes "switch_eventType eventToken = None"
  shows "notifications (triggerEvent eventToken level h) = notifications h
       \<and> triggerEvent eventToken None h = h
       \<and> triggerEvent eventToken (Some l) h = updateBattery l h
       \<and> batteryLevel (triggerEvent eventToken (Some l) h) = max 0 (min 100 (Math_trunc l))
       \<and> hap_calls (triggerEvent eventToken (Some l) h)
           = hap_calls h @
             [UpdateValue_BatteryLevel (max 0 (min 100 (Math_trunc l))),
              UpdateValue_StatusLowBattery
                (if max 0 (min 100 (Math_trunc l)) < 15 then BATTERY_LEVEL_LOW else BATTERY_LEVEL_NORMAL)]"
proof -
  have "notifications (triggerEvent eventToken level h) = notifications h"
    using assms by (cases level) (simp_all add: triggerEvent_def notifications_updateBattery)
  with assms show ?thesis
    by (simp add: triggerEvent_def updateBattery_def Let_def)
qed

text \<open>
  An unknown token with battery level 5 on a fresh handler.
\<close>

theorem unknown_event_keeps_battery_update_witness:
  "switch_eventType ''not-a-real-event'' = None
   \<and> notifications (triggerEvent ''not-a-real-event'' (Some 5) (new_handler (platformAccessory ''Door'' ''d1''))) = []
   \<and> batteryLevel (triggerEvent ''not-a-real-event'' (Some 5) (new_handler (platformAccessory ''Door'' ''d1''))) = 5
   \<and> hap_calls (triggerEvent ''not-a-real-event'' (Some 5) (new_handler (platformAccessory ''Door'' ''d1'')))
       = [UpdateValue_BatteryLevel 5, UpdateValue_StatusLowBattery BATTERY_LEVEL_LOW]"
proof -
  have none: "switch_eventType ''not-a-real-event'' = None"
    by (simp add: switch_eventType_def)
  have five: "Math_trunc 5 = 5"
    by (simp add: Math_trunc_def)
  from none unknown_event_keeps_battery_update [OF none, of "Some 5" "new_handler (platformAccessory ''Door'' ''d1'')" 5]
  show ?thesis
    by (simp add: five new_handler_def notifications_def updateBattery_def Let_def)
qed

section \<open>The listening port\<close>

text \<open>
  Claim C10. The port is the default 3001 for every falsy configured value, an absent
  port and the port 0 among them; a configured port is kept only when it is truthy.
\<close>

theorem port_default_when_falsy:
  "(\<not> truthy (config_port config) \<longrightarrow> port (ButtonPlatform_new config) = 3001)
   \<and> (truthy (config_port config) \<longrightarrow> config_port config = Some (port (ButtonPlatform_new config)))
   \<and> \<not> truthy None \<and> \<not> truthy (Some 0)"
  by (simp add: ButtonPlatform_new_def or_else_def truthy_def split: option.splits)

text \<open>
  A configured port 0 gives 3001; a configured port 8080 is kept.
\<close>

theorem port_default_when_falsy_witness:
  "\<not> truthy (config_port \<lparr>config_port = Some 0, config_buttons = None\<rparr>)
   \<and> port (ButtonPlatform_new \<lparr>config_port = Some 0, config_buttons = None\<rparr>) = 3001
   \<and> truthy (config_port \<lparr>config_port = Some 8080, config_buttons = None\<rparr>)
   \<and> Some 8080 = Some (port (ButtonPlatform_new \<lparr>config_port = Some 8080, config_buttons = None\<rparr>))"
  using port_default_when_falsy [of "\<lparr>config_port = Some 0, config_buttons = None\<rparr>"]
    port_default_when_falsy [of "\<lparr>config_port = Some 8080, config_buttons = None\<rparr>"]
  by (simp add: truthy_def)

section \<open>Reconciliation of the cache with the configuration\<close>

lemma strip_update_first:
  "map strip_context (update_first P (\<lambda>a. a\<lparr>context_device := c\<rparr>) xs) = map strip_context xs"
  by (induction xs) (simp_all add: strip_context_def)

lemma find_strip:
  "List.find (\<lambda>a. UUID a = u) (map strip_context xs) = map_option strip_context (List.find (\<lambda>a. UUID a = u) xs)"
  by (induction xs) (simp_all add: strip_context_def)

lemma wrapped_strip:
  "wrapped gen xs n =
     (case List.find (\<lambda>a. UUID a = gen n) (map strip_context xs) of
        Some e \<Rightarrow> e\<lparr>context_device := Some n\<rparr>
      | None \<Rightarrow> (platformAccessory n (gen n))\<lparr>context_device := Some n\<rparr>)"
  by (simp add: wrapped_def find_strip strip_context_def split: option.splits)

lemma wrapped_cong:
  "map strip_context xs = map strip_context ys \<Longrightarrow> wrapped gen xs n = wrapped gen ys n"
  by (simp add: wrapped_strip)

lemma find_None_strip:
  "map strip_context xs = map strip_context ys \<Longrightarrow>
   List.find (\<lambda>a. UUID a = u) xs = None \<longleftrightarrow> List.find (\<lambda>a. UUID a = u) ys = None"
  by (metis find_strip map_option_is_None)

lemma discover_button_accessories:
  "accessories (discover_button gen n p) =
     update_first (\<lambda>a. UUID a = gen n) (\<lambda>a. a\<lparr>context_device := Some n\<rparr>) (accessories p)"
proof -
  have nomatch: "update_first P f xs = xs" if "List.find P xs = None"
    for P and f :: "'n accessory \<Rightarrow> 'n accessory" and xs
    using that by (induction xs) (simp_all split: if_splits)
  show ?thesis
    by (simp add: discover_button_def Let_def nomatch split: option.splits)
qed

lemma discover_button_strip:
  "map strip_context (accessories (discover_button gen n p)) = map strip_context (accessories p)"
  by (simp add: discover_button_accessories strip_update_first)

lemma discover_button_wrapped:
  "wrapped gen (accessories (discover_button gen n p)) m = wrapped gen (accessories p) m"
  by (rule wrapped_cong [OF discover_button_strip])

lemma discover_button_find_None:
  "List.find (\<lambda>a. UUID a = u) (accessories (discover_button gen n p)) = None
   \<longleftrightarrow> List.find (\<lambda>a. UUID a = u) (accessories p) = None"
  by (rule find_None_strip [OF discover_button_strip])

lemma discover_button_fields:
  "accessoryHandlers (discover_button gen n p) =
     (accessoryHandlers p)(gen n \<mapsto> new_handler (wrapped gen (accessories p) n))"
  "api_registered (discover_button gen n p) =
     api_registered p @ (if List.find (\<lambda>a. UUID a = gen n) (accessories p) = None
                         then [wrapped gen (accessories p) n] else [])"
  "api_updated (discover_button gen n p) =
     api_updated p @ (if List.find (\<lambda>a. UUID a = gen n) (accessories p) = None
                         then [] else [wrapped gen (accessories p) n])"
  "api_unregistered (discover_button gen n p) = api_unregistered p"
  "buttons (discover_button gen n p) = buttons p"
  "port (discover_button gen n p) = port p"
  by (simp_all add: discover_button_def wrapped_def Let_def split: option.splits)

lemma discover_loop_strip:
  "map strip_context (accessories (discover_loop gen ns p)) = map strip_context (accessories p)"
  by (induction ns arbitrary: p) (simp_all add: discover_button_strip)

lemma discover_loop_const:
  "buttons (discover_loop gen ns p) = buttons p"
  "port (discover_loop gen ns p) = port p"
  "api_unregistered (discover_loop gen ns p) = api_unregistered p"
  by (induction ns arbitrary: p) (simp_all add: discover_button_fields)

lemma discover_loop_handlers:
  "accessoryHandlers (discover_loop gen ns p) u =
     (case List.find (\<lambda>n. gen n = u) (rev ns) of
        Some n \<Rightarrow> Some (new_handler (wrapped gen (accessories p) n))
      | None \<Rightarrow> accessoryHandlers p u)"
proof (induction ns arbitrary: p)
  case Nil
  show ?case by simp
next
  case (Cons n ns)
  have app: "List.find P (xs @ [x]) = (case List.find P xs of Some y \<Rightarrow> Some y | None \<Rightarrow> if P x then Some x else None)"
    for P :: "'n \<Rightarrow> bool" and xs x
    by (induction xs) simp_all
  show ?case
    by (simp add: Cons.IH app discover_button_wrapped discover_button_fields split: option.splits)
qed

lemma discover_loop_registered:
  "api_registered (discover_loop gen ns p) =
     api_registered p @
     map (wrapped gen (accessories p)) (filter (\<lambda>n. List.find (\<lambda>a. UUID a = gen n) (accessories p) = None) ns)"
proof (induction ns arbitrary: p)
  case Nil
  show ?case by simp
next
  case (Cons n ns)
  show ?case
    by (simp add: Cons.IH discover_button_wrapped discover_button_find_None discover_button_fields)
qed

lemma discover_loop_updated:
  "api_updated (discover_loop gen ns p) =
     api_updated p @
     map (wrapped gen (accessories p)) (filter (\<lambda>n. List.find (\<lambda>a. UUID a = gen n) (accessories p) \<noteq> None) ns)"
proof (induction ns arbitrary: p)
  case Nil
  show ?case by simp
next
  case (Cons n ns)
  show ?case
    by (simp add: Cons.IH discover_button_wrapped discover_button_find_None discover_button_fields)
qed

lemma remove_loop_fields:
  "accessories (remove_loop as p) = accessories p"
  "buttons (remove_loop as p) = buttons p"
  "port (remove_loop as p) = port p"
  "api_registered (remove_loop as p) = api_registered p"
  "api_updated (remove_loop as p) = api_updated p"
  "api_unregistered (remove_loop as p) = api_unregistered p @ as"
  "accessoryHandlers (remove_loop as p) u = (if u \<in> UUID ` set as then None else accessoryHandlers p u)"
  by (induction as arbitrary: p) auto


lemma configure_all:
  "accessories (foldl (\<lambda>p a. configureAccessory a p) p cache) = accessories p @ cache"
  "accessoryHandlers (foldl (\<lambda>p a. configureAccessory a p) p cache) = accessoryHandlers p"
  "buttons (foldl (\<lambda>p a. configureAccessory a p) p cache) = buttons p"
  "port (foldl (\<lambda>p a. configureAccessory a p) p cache) = port p"
  "api_registered (foldl (\<lambda>p a. configureAccessory a p) p cache) = api_registered p"
  "api_updated (foldl (\<lambda>p a. configureAccessory a p) p cache) = api_updated p"
  "api_unregistered (foldl (\<lambda>p a. configureAccessory a p) p cache) = api_unregistered p"
  by (induction cache arbitrary: p) (simp_all add: configureAccessory_def)

lemma new_fields:
  "accessories (ButtonPlatform_new config) = []"
  "accessoryHandlers (ButtonPlatform_new config) = Map.empty"
  "buttons (ButtonPlatform_new config) = configured config"
  "api_registered (ButtonPlatform_new config) = []"
  "api_updated (ButtonPlatform_new config) = []"
  "api_unregistered (ButtonPlatform_new config) = []"
  by (simp_all add: ButtonPlatform_new_def)

lemma launch_buttons: "buttons (launch gen config cache) = configured config"
  by (simp add: launch_def discoverDevices_def Let_def remove_loop_fields discover_loop_const
      configure_all new_fields)

lemma launch_strip:
  "map strip_context (accessories (launch gen config cache)) = map strip_context cache"
  by (simp add: launch_def discoverDevices_def Let_def remove_loop_fields discover_loop_strip
      configure_all new_fields)

lemma launch_registered:
  "api_registered (launch gen config cache) =
     map (wrapped gen cache)
       (filter (\<lambda>n. List.find (\<lambda>a. UUID a = gen n) cache = None) (configured config))"
  by (simp add: launch_def discoverDevices_def Let_def remove_loop_fields discover_loop_registered
      configure_all new_fields)

lemma launch_updated:
  "api_updated (launch gen config cache) =
     map (wrapped gen cache)
       (filter (\<lambda>n. List.find (\<lambda>a. UUID a = gen n) cache \<noteq> None) (configured config))"
  by (simp add: launch_def discoverDevices_def Let_def remove_loop_fields discover_loop_updated
      configure_all new_fields)

lemma launch_unregistered:
  "api_unregistered (launch gen config cache) =
     filter (\<lambda>a. UUID a \<notin> gen ` set (configured config)) (accessories (launch gen config cache))"
  by (simp add: launch_def discoverDevices_def Let_def remove_loop_fields discover_loop_const
      configure_all new_fields)

lemma find_rev_Some: "List.find P (rev xs) = Some x \<Longrightarrow> x \<in> set xs \<and> P x"
  by (metis find_Some_iff nth_mem set_rev)

lemma launch_handlers:
  "accessoryHandlers (launch gen config cache) u =
     (case List.find (\<lambda>n. gen n = u) (rev (configured config)) of
        Some n \<Rightarrow> Some (new_handler (wrapped gen cache n))
      | None \<Rightarrow> None)"
proof (cases "List.find (\<lambda>n. gen n = u) (rev (configured config))")
  case None
  then show ?thesis
    by (simp add: launch_def discoverDevices_def Let_def remove_loop_fields discover_loop_const
        discover_loop_handlers configure_all new_fields)
next
  case (Some n)
  then have "u \<in> gen ` set (configured config)"
    using find_rev_Some [OF Some] by blast
  then have u: "u \<in> gen ` set (configured config)" .
  have "u \<notin> UUID ` set (filter (\<lambda>a. UUID a \<notin> gen ` set (configured config)) xs)" for xs
  proof
    assume "u \<in> UUID ` set (filter (\<lambda>a. UUID a \<notin> gen ` set (configured config)) xs)"
    then obtain a where "u = UUID a" "a \<in> set (filter (\<lambda>a. UUID a \<notin> gen ` set (configured config)) xs)"
      by (rule imageE)
    then have "u \<notin> gen ` set (configured config)"
      by simp
    with u show False by simp
  qed
  with Some show ?thesis
    by (simp add: launch_def discoverDevices_def Let_def remove_loop_fields discover_loop_const
        discover_loop_handlers configure_all new_fields)
qed

lemma launch_dom:
  "dom (accessoryHandlers (launch gen config cache)) = gen ` set (configured config)"
proof -
  have "List.find (\<lambda>n. gen n = u) (rev (configured config)) \<noteq> None \<longleftrightarrow> u \<in> gen ` set (configured config)" for u
    by (auto simp add: find_None_iff)
  then show ?thesis
    by (auto simp add: dom_def launch_handlers split: option.splits)
qed

lemma UUID_wrapped: "UUID (wrapped gen xs n) = gen n"
  by (auto simp add: wrapped_def platformAccessory_def split: option.splits dest: find_Some_iff [THEN iffD1])

lemma UUID_strip: "map UUID xs = map UUID ys" if "map strip_context xs = map strip_context ys"
proof -
  have "map UUID xs = map UUID (map strip_context xs)"
    by (simp add: strip_context_def)
  also have "\<dots> = map UUID (map strip_context ys)"
    using that by simp
  also have "\<dots> = map UUID ys"
    by (simp add: strip_context_def)
  finally show ?thesis .
qed

lemma find_filter_same:
  "(\<And>x. P x \<Longrightarrow> Q x) \<Longrightarrow> List.find P (filter Q xs) = List.find P xs"
  by (induction xs) auto

lemma find_append_cases:
  "List.find P (xs @ ys) = (case List.find P xs of Some x \<Rightarrow> Some x | None \<Rightarrow> List.find P ys)"
  by (induction xs) simp_all

lemma persisted_after_launch:
  "persisted_after (launch gen config cache) =
     filter (\<lambda>a. UUID a \<in> gen ` set (configured config)) (accessories (launch gen config cache))
     @ map (wrapped gen cache)
         (filter (\<lambda>n. List.find (\<lambda>a. UUID a = gen n) cache = None) (configured config))"
proof -
  have "filter (\<lambda>a. a \<notin> set (filter (\<lambda>a. UUID a \<notin> S) xs)) xs = filter (\<lambda>a. UUID a \<in> S) xs"
    for S and xs :: "'n accessory list"
    by (rule filter_cong) auto
  then show ?thesis
    by (simp add: persisted_after_def launch_unregistered launch_registered)
qed

lemma persisted_UUIDs:
  "a \<in> set (persisted_after (launch gen config cache)) \<Longrightarrow> UUID a \<in> gen ` set (configured config)"
  by (auto simp add: persisted_after_launch UUID_wrapped)

lemma find_unmatched:
  assumes "inj_on gen (set ns)" "n \<in> set ns" "Q n"
  shows "List.find (\<lambda>a. UUID a = gen n) (map (wrapped gen cache) (filter Q ns)) = Some (wrapped gen cache n)"
  using assms
proof (induction ns)
  case Nil
  then show ?case by simp
next
  case (Cons m ns)
  show ?case
  proof (cases "m = n")
    case True
    with Cons.prems show ?thesis by (simp add: UUID_wrapped)
  next
    case False
    with Cons.prems have "gen m \<noteq> gen n" "n \<in> set ns" "inj_on gen (set ns)"
      by (auto simp add: inj_on_def)
    with Cons.IH Cons.prems show ?thesis by (simp add: UUID_wrapped)
  qed
qed

lemma wrapped_persisted:
  assumes "inj_on gen (set (configured config))" "n \<in> set (configured config)"
  shows "wrapped gen (persisted_after (launch gen config cache)) n = wrapped gen cache n"
    and "List.find (\<lambda>a. UUID a = gen n) (persisted_after (launch gen config cache)) \<noteq> None"
proof -
  let ?P = "\<lambda>a. UUID a = gen n"
  let ?acc1 = "accessories (launch gen config cache)"
  let ?kept = "filter (\<lambda>a. UUID a \<in> gen ` set (configured config)) ?acc1"
  let ?reg = "map (wrapped gen cache)
         (filter (\<lambda>n. List.find (\<lambda>a. UUID a = gen n) cache = None) (configured config))"
  have kept: "List.find ?P ?kept = List.find ?P ?acc1"
    using assms(2) by (intro find_filter_same) auto
  have strip: "map_option strip_context (List.find ?P ?acc1) = map_option strip_context (List.find ?P cache)"
    using launch_strip [of gen config cache] by (simp flip: find_strip)
  have both: "wrapped gen (persisted_after (launch gen config cache)) n = wrapped gen cache n
    \<and> List.find ?P (persisted_after (launch gen config cache)) \<noteq> None"
  proof (cases "List.find ?P cache")
    case None
    then have "List.find ?P ?acc1 = None"
      using strip by simp
    moreover have "List.find ?P ?reg = Some (wrapped gen cache n)"
      using assms None by (intro find_unmatched) auto
    ultimately have "List.find ?P (persisted_after (launch gen config cache)) = Some (wrapped gen cache n)"
      by (simp add: persisted_after_launch find_append_cases kept)
    then show ?thesis
      using None by (simp add: wrapped_def platformAccessory_def)
  next
    case (Some e)
    then obtain e' where e': "List.find ?P ?acc1 = Some e'" "strip_context e' = strip_context e"
      using strip by auto
    then have "List.find ?P (persisted_after (launch gen config cache)) = Some e'"
      by (simp add: persisted_after_launch find_append_cases kept)
    moreover have "e'\<lparr>context_device := Some n\<rparr> = e\<lparr>context_device := Some n\<rparr>"
      using e'(2) by (cases e, cases e') (simp add: strip_context_def)
    ultimately show ?thesis
      using Some by (simp add: wrapped_def)
  qed
  from both show "wrapped gen (persisted_after (launch gen config cache)) n = wrapped gen cache n"
    and "List.find ?P (persisted_after (launch gen config cache)) \<noteq> None"
    by simp_all
qed

text \<open>
  Claim C3. Reconciliation is idempotent. A first start of the process reconciles the
  configured names with some cache; the host framework then persists what that run left.
  A second start with the same configuration and that persisted set registers no
  accessory, unregisters none, and builds the same index from UUID to handler. Distinct
  configured names are taken to have distinct UUIDs.
\<close>

theorem reconcile_twice:
  assumes "inj_on gen (set (configured config))"
  shows "api_registered (launch gen config (persisted_after (launch gen config cache))) = []
       \<and> api_unregistered (launch gen config (persisted_after (launch gen config cache))) = []
       \<and> accessoryHandlers (launch gen config (persisted_after (launch gen config cache)))
           = accessoryHandlers (launch gen config cache)"
proof -
  let ?c2 = "persisted_after (launch gen config cache)"
  note inj = assms
  have "api_registered (launch gen config ?c2) = []"
    using wrapped_persisted(2) [OF inj] by (simp add: launch_registered filter_empty_conv)
  moreover have "api_unregistered (launch gen config ?c2) = []"
  proof -
    have "map UUID (accessories (launch gen config ?c2)) = map UUID ?c2"
      by (rule UUID_strip) (rule launch_strip)
    then have same: "UUID ` set (accessories (launch gen config ?c2)) = UUID ` set ?c2"
      by (metis set_map)
    have "UUID a \<in> gen ` set (configured config)" if "a \<in> set (accessories (launch gen config ?c2))" for a
    proof -
      from that have "UUID a \<in> UUID ` set ?c2"
        unfolding same [symmetric] by (rule imageI)
      then obtain b where "b \<in> set ?c2" "UUID a = UUID b"
        by (rule imageE)
      then show ?thesis
        using persisted_UUIDs [of b gen config cache] by simp
    qed
    then show ?thesis
      by (simp add: launch_unregistered filter_empty_conv)
  qed
  moreover have "accessoryHandlers (launch gen config ?c2) = accessoryHandlers (launch gen config cache)"
  proof
    fix u
    show "accessoryHandlers (launch gen config ?c2) u = accessoryHandlers (launch gen config cache) u"
      using wrapped_persisted(1) [OF inj]
      by (auto simp add: launch_handlers split: option.splits dest: find_rev_Some)
  qed
  ultimately show ?thesis by simp
qed

lemmas validation_defs = validationResult_def oneOf_def check_event_def check_battery_def isIn_def
  toString_def validEvents_def

lemmas launch_defs = launch_def discoverDevices_def discover_button_def Let_def configureAccessory_def
  ButtonPlatform_new_def configured_def platformAccessory_def

text \<open>
  A cache of two accessories, "A" and "B", and the configured buttons "B" and "C", with
  the identity as UUID generator.
\<close>

theorem reconcile_twice_witness:
  "inj_on (\<lambda>n::string. n)
     (set (configured \<lparr>config_port = None, config_buttons = Some [''B'', ''C'']\<rparr>))
   \<and> api_registered
        (launch (\<lambda>n. n) \<lparr>config_port = None, config_buttons = Some [''B'', ''C'']\<rparr>
          (persisted_after
            (launch (\<lambda>n. n) \<lparr>config_port = None, config_buttons = Some [''B'', ''C'']\<rparr>
              [\<lparr>UUID = ''A'', displayName = ''A'', context_device = Some ''A''\<rparr>,
               \<lparr>UUID = ''B'', displayName = ''B'', context_device = Some ''B''\<rparr>]))) = []
   \<and> api_unregistered
        (launch (\<lambda>n. n) \<lparr>config_port = None, config_buttons = Some [''B'', ''C'']\<rparr>
          (persisted_after
            (launch (\<lambda>n. n) \<lparr>config_port = None, config_buttons = Some [''B'', ''C'']\<rparr>
              [\<lparr>UUID = ''A'', displayName = ''A'', context_device = Some ''A''\<rparr>,
               \<lparr>UUID = ''B'', displayName = ''B'', context_device = Some ''B''\<rparr>]))) = []
   \<and> accessoryHandlers
        (launch (\<lambda>n. n) \<lparr>config_port = None, config_buttons = Some [''B'', ''C'']\<rparr>
          (persisted_after
            (launch (\<lambda>n. n) \<lparr>config_port = None, config_buttons = Some [''B'', ''C'']\<rparr>
              [\<lparr>UUID = ''A'', displayName = ''A'', context_device = Some ''A''\<rparr>,
               \<lparr>UUID = ''B'', displayName = ''B'', context_device = Some ''B''\<rparr>])))
       = accessoryHandlers
           (launch (\<lambda>n. n) \<lparr>config_port = None, config_buttons = Some [''B'', ''C'']\<rparr>
              [\<lparr>UUID = ''A'', displayName = ''A'', context_device = Some ''A''\<rparr>,
               \<lparr>UUID = ''B'', displayName = ''B'', context_device = Some ''B''\<rparr>])"
proof -
  have inj: "inj_on (\<lambda>n::string. n)
     (set (configured \<lparr>config_port = None, config_buttons = Some [''B'', ''C'']\<rparr>))"
    by simp
  from inj reconcile_twice [OF inj] show ?thesis
    by (intro conjI) simp_all
qed

text \<open>
  \<open>discoverDevices\<close> does not add a created accessory to \<open>this.accessories\<close>. A second
  call on the same platform object, without a restart in between, therefore creates and
  registers the accessory again.
\<close>

lemma discoverDevices_again_registers_again:
  "api_registered
     (discoverDevices gen (launch gen \<lparr>config_port = None, config_buttons = Some [''Door'']\<rparr> []))
   = [\<lparr>UUID = gen ''Door'', displayName = ''Door'', context_device = Some ''Door''\<rparr>,
      \<lparr>UUID = gen ''Door'', displayName = ''Door'', context_device = Some ''Door''\<rparr>]"
  by (simp add: launch_defs)

text \<open>
  Claim C4. With the accessories of A and B in the cache and the buttons B and C
  configured (the three UUIDs distinct), reconciliation restores exactly B and refreshes
  its context to the name B, creates and registers exactly C, and unregisters exactly A;
  the index then holds a handler for B and one for C and nothing else. For every cache
  and configuration, the keys of the index after reconciliation are exactly the UUIDs
  of the configured names.
\<close>

theorem reconcile_restores_adds_removes:
  assumes "distinct [gen A, gen B, gen C]"
  shows "api_updated
           (launch gen \<lparr>config_port = pt, config_buttons = Some [B, C]\<rparr>
             [\<lparr>UUID = gen A, displayName = dA, context_device = cA\<rparr>,
              \<lparr>UUID = gen B, displayName = dB, context_device = cB\<rparr>])
         = [\<lparr>UUID = gen B, displayName = dB, context_device = Some B\<rparr>]
       \<and> api_registered
           (launch gen \<lparr>config_port = pt, config_buttons = Some [B, C]\<rparr>
             [\<lparr>UUID = gen A, displayName = dA, context_device = cA\<rparr>,
              \<lparr>UUID = gen B, displayName = dB, context_device = cB\<rparr>])
         = [\<lparr>UUID = gen C, displayName = C, context_device = Some C\<rparr>]
       \<and> api_unregistered
           (launch gen \<lparr>config_port = pt, config_buttons = Some [B, C]\<rparr>
             [\<lparr>UUID = gen A, displayName = dA, context_device = cA\<rparr>,
              \<lparr>UUID = gen B, displayName = dB, context_device = cB\<rparr>])
         = [\<lparr>UUID = gen A, displayName = dA, context_device = cA\<rparr>]
       \<and> accessoryHandlers
           (launch gen \<lparr>config_port = pt, config_buttons = Some [B, C]\<rparr>
             [\<lparr>UUID = gen A, displayName = dA, context_device = cA\<rparr>,
              \<lparr>UUID = gen B, displayName = dB, context_device = cB\<rparr>])
         = [gen B \<mapsto> new_handler \<lparr>UUID = gen B, displayName = dB, context_device = Some B\<rparr>,
            gen C \<mapsto> new_handler \<lparr>UUID = gen C, displayName = C, context_device = Some C\<rparr>]
       \<and> dom (accessoryHandlers (launch gen config cache)) = gen ` set (buttons (launch gen config cache))"
  using assms
  apply (intro conjI)
      apply (simp add: launch_defs)
     apply (simp add: launch_defs)
    apply (simp add: launch_defs)
   apply (simp add: launch_defs)
  apply (simp add: launch_dom launch_buttons)
  done

text \<open>
  The scenario with the names "A", "B", "C" and the identity as UUID generator.
\<close>

theorem reconcile_restores_adds_removes_witness:
  "distinct [(\<lambda>n. n) ''A'', (\<lambda>n. n) ''B'', (\<lambda>n. n) ''C'']
   \<and> api_updated
        (launch (\<lambda>n. n) \<lparr>config_port = None, config_buttons = Some [''B'', ''C'']\<rparr>
          [\<lparr>UUID = ''A'', displayName = ''A'', context_device = Some ''A''\<rparr>,
           \<lparr>UUID = ''B'', displayName = ''B'', context_device = Some ''old''\<rparr>])
      = [\<lparr>UUID = ''B'', displayName = ''B'', context_device = Some ''B''\<rparr>]
   \<and> api_registered
        (launch (\<lambda>n. n) \<lparr>config_port = None, config_buttons = Some [''B'', ''C'']\<rparr>
          [\<lparr>UUID = ''A'', displayName = ''A'', context_device = Some ''A''\<rparr>,
           \<lparr>UUID = ''B'', displayName = ''B'', context_device = Some ''old''\<rparr>])
      = [\<lparr>UUID = ''C'', displayName = ''C'', context_device = Some ''C''\<rparr>]
   \<and> api_unregistered
        (launch (\<lambda>n. n) \<lparr>config_port = None, config_buttons = Some [''B'', ''C'']\<rparr>
          [\<lparr>UUID = ''A'', displayName = ''A'', context_device = Some ''A''\<rparr>,
           \<lparr>UUID = ''B'', displayName = ''B'', context_device = Some ''old''\<rparr>])
      = [\<lparr>UUID = ''A'', displayName = ''A'', context_device = Some ''A''\<rparr>]"
proof -
  have d: "distinct [(\<lambda>n. n) ''A'', (\<lambda>n. n) ''B'', (\<lambda>n. n) ''C'']"
    by simp
  from d reconcile_restores_adds_removes
    [where gen = "\<lambda>n::string. n" and A = "''A''" and B = "''B''" and C = "''C''"
       and pt = None and dA = "''A''" and cA = "Some ''A''" and dB = "''B''" and cB = "Some ''old''",
     OF d]
  show ?thesis
    by simp
qed

section \<open>Routes\<close>

lemma is_az09_code_points:
  "is_az09 c \<longleftrightarrow> (97 \<le> c \<and> c \<le> 122) \<or> (48 \<le> c \<and> c \<le> 57)"
  unfolding is_az09_def ascii_def by simp arith

lemma toLowerCase_cp_cases:
  assumes "d \<in> set (toLowerCase_cp c)"
  shows "\<not> (65 \<le> d \<and> d \<le> 90)" and "d \<noteq> 8490" and "d = 383 \<longrightarrow> c = 383"
  using assms by (auto simp add: toLowerCase_cp_def split: if_splits)

lemma toLowerCase_elem:
  assumes "d \<in> set (toLowerCase n)"
  shows "\<not> (65 \<le> d \<and> d \<le> 90)" and "d \<noteq> 8490" and "d = 383 \<longrightarrow> 383 \<in> set n"
proof -
  from assms obtain c where c: "c \<in> set n" "d \<in> set (toLowerCase_cp c)"
    by (auto simp add: toLowerCase_def)
  from toLowerCase_cp_cases [OF c(2)] c(1)
  show "\<not> (65 \<le> d \<and> d \<le> 90)" and "d \<noteq> 8490" and "d = 383 \<longrightarrow> 383 \<in> set n"
    by auto
qed

lemma replace_class_lowered:
  "replace_class (toLowerCase n)
     = map (\<lambda>c. if is_az09 c \<or> c = 383 then c else 45) (toLowerCase n)"
  unfolding replace_class_def
proof (rule map_cong [OF refl])
  fix d assume "d \<in> set (toLowerCase n)"
  from toLowerCase_elem(1,2) [OF this]
  show "(if in_class d then 45 else d) = (if is_az09 d \<or> d = 383 then d else 45)"
    by (auto simp add: in_class_def is_az09_code_points)
qed

text \<open>
  The path of every name: the lower-cased name in which a code point is kept when it is
  in \<open>[a-z0-9]\<close> or is U+017F, and is replaced by "-" otherwise.
\<close>

lemma generateButtonUri_exact:
  "generateButtonUri n
     = ascii ''/button-'' @ map (\<lambda>c. if is_az09 c \<or> c = 383 then c else 45) (toLowerCase n)"
  by (simp add: generateButtonUri_def replace_class_lowered)

text \<open>
  U+0130 lower-cases to two code points, of which the second is replaced; the Kelvin
  sign lower-cases to "k".
\<close>

lemma generateButtonUri_special_cases:
  "generateButtonUri [304] = ascii ''/button-i-''"
  "generateButtonUri [8490] = ascii ''/button-k''"
  by (simp_all add: generateButtonUri_def replace_class_def toLowerCase_def toLowerCase_cp_def
      in_class_def ascii_def)

text \<open>
  Claim C9, as amended. \<open>setupExpressServer\<close> registers one route per entry of the
  configured button list: as many routes for a name as the list holds it, exactly one
  for a name that is listed once. For a name without U+017F the path is "/button-"
  followed by the lower-cased name in which every code point outside \<open>[a-z0-9]\<close> is
  replaced by one "-". The path is a function of the name, so identical names have
  identical paths, and it has one code point per code point of the lower-cased name.
\<close>

theorem one_route_per_listed_button:
  "setupExpressServer p = map (\<lambda>n. \<lparr>uri = generateButtonUri n, route_button = n\<rparr>) (buttons p)
   \<and> length (filter (\<lambda>r. route_button r = n) (setupExpressServer p)) = count_list (buttons p) n
   \<and> (distinct (buttons p) \<and> n \<in> set (buttons p) \<longrightarrow>
        filter (\<lambda>r. route_button r = n) (setupExpressServer p)
          = [\<lparr>uri = generateButtonUri n, route_button = n\<rparr>])
   \<and> (383 \<notin> set n \<longrightarrow>
        generateButtonUri n
          = ascii ''/button-'' @ map (\<lambda>c. if is_az09 c then c else 45) (toLowerCase n))
   \<and> length (generateButtonUri n) = length (ascii ''/button-'') + length (toLowerCase n)
   \<and> generateButtonUri (ascii ''Front Door #2'') = ascii ''/button-front-door--2''"
proof -
  have routes: "setupExpressServer p = map (\<lambda>n. \<lparr>uri = generateButtonUri n, route_button = n\<rparr>) (buttons p)"
    by (simp add: setupExpressServer_def setupRoute_def)
  have count: "length (filter (\<lambda>r. route_button r = n) (map (\<lambda>n. \<lparr>uri = generateButtonUri n, route_button = n\<rparr>) ns))
      = count_list ns n" for ns
    by (induction ns) simp_all
  have one: "filter (\<lambda>r. route_button r = n) (map (\<lambda>n. \<lparr>uri = generateButtonUri n, route_button = n\<rparr>) ns)
      = [\<lparr>uri = generateButtonUri n, route_button = n\<rparr>]" if "distinct ns" "n \<in> set ns" for ns
    using that
  proof (induction ns)
    case Nil
    then show ?case by simp
  next
    case (Cons m ns)
    have "filter (\<lambda>r. route_button r = n) (map (\<lambda>n. \<lparr>uri = generateButtonUri n, route_button = n\<rparr>) ns) = []"
      if "n \<notin> set ns"
      using that by (induction ns) auto
    with Cons show ?case by auto
  qed
  have path: "generateButtonUri n
        = ascii ''/button-'' @ map (\<lambda>c. if is_az09 c then c else 45) (toLowerCase n)"
    if "383 \<notin> set n"
  proof -
    have "map (\<lambda>c. if is_az09 c \<or> c = 383 then c else 45) (toLowerCase n)
        = map (\<lambda>c. if is_az09 c then c else 45) (toLowerCase n)"
    proof (rule map_cong [OF refl])
      fix d assume "d \<in> set (toLowerCase n)"
      from toLowerCase_elem(3) [OF this] that have "d \<noteq> 383"
        by blast
      then show "(if is_az09 d \<or> d = 383 then d else 45) = (if is_az09 d then d else 45)"
        by simp
    qed
    then show ?thesis
      by (simp add: generateButtonUri_exact)
  qed
  have len: "length (generateButtonUri n) = length (ascii ''/button-'') + length (toLowerCase n)"
    by (simp add: generateButtonUri_def replace_class_def)
  have example: "generateButtonUri (ascii ''Front Door #2'') = ascii ''/button-front-door--2''"
    by (simp add: generateButtonUri_def replace_class_def toLowerCase_def toLowerCase_cp_def
        in_class_def ascii_def)
  from routes count [of "buttons p"] one [of "buttons p"] path len example show ?thesis
    by simp
qed

text \<open>
  Two configured buttons; the route and the path of "Garage".
\<close>

theorem one_route_per_listed_button_witness:
  "distinct (buttons (ButtonPlatform_new
      \<lparr>config_port = None, config_buttons = Some [ascii ''Front Door'', ascii ''Garage'']\<rparr>))
   \<and> ascii ''Garage'' \<in> set (buttons (ButtonPlatform_new
      \<lparr>config_port = None, config_buttons = Some [ascii ''Front Door'', ascii ''Garage'']\<rparr>))
   \<and> 383 \<notin> set (ascii ''Garage'')
   \<and> filter (\<lambda>r. route_button r = ascii ''Garage'')
        (setupExpressServer (ButtonPlatform_new
          \<lparr>config_port = None, config_buttons = Some [ascii ''Front Door'', ascii ''Garage'']\<rparr>))
      = [\<lparr>uri = generateButtonUri (ascii ''Garage''), route_button = ascii ''Garage''\<rparr>]
   \<and> generateButtonUri (ascii ''Garage'')
      = ascii ''/button-'' @ map (\<lambda>c. if is_az09 c then c else 45) (toLowerCase (ascii ''Garage''))"
proof -
  have d: "distinct (buttons (ButtonPlatform_new
      \<lparr>config_port = None, config_buttons = Some [ascii ''Front Door'', ascii ''Garage'']\<rparr>))"
    "ascii ''Garage'' \<in> set (buttons (ButtonPlatform_new
      \<lparr>config_port = None, config_buttons = Some [ascii ''Front Door'', ascii ''Garage'']\<rparr>))"
    "383 \<notin> set (ascii ''Garage'')"
    by (simp_all add: ButtonPlatform_new_def configured_def ascii_def)
  from d one_route_per_listed_button
    [where p = "ButtonPlatform_new
      \<lparr>config_port = None, config_buttons = Some [ascii ''Front Door'', ascii ''Garage'']\<rparr>"
       and n = "ascii ''Garage''"]
  show ?thesis
    by blast
qed

text \<open>
  Claim C9 as stated fails on two inputs. The name that consists of U+017F is its own
  lower-case form and lies outside \<open>[a-z0-9]\<close>, yet its path is "/button-" followed by
  U+017F and not "/button--": under the flags \<open>iu\<close> the class does not match a code
  point that case-folds to "s". And a name that the configuration lists twice gets two
  routes.
\<close>

theorem one_route_per_button_counterexample:
  "toLowerCase [383] = [383]
   \<and> \<not> is_az09 383
   \<and> generateButtonUri [383] = ascii ''/button-'' @ [383]
   \<and> generateButtonUri [383] \<noteq> ascii ''/button--''
   \<and> map route_button
        (setupExpressServer (ButtonPlatform_new
          \<lparr>config_port = None, config_buttons = Some [ascii ''Door'', ascii ''Door'']\<rparr>))
      = [ascii ''Door'', ascii ''Door'']"
  by (simp add: generateButtonUri_def replace_class_def toLowerCase_def toLowerCase_cp_def
      in_class_def is_az09_code_points setupExpressServer_def setupRoute_def
      ButtonPlatform_new_def configured_def ascii_def)

section \<open>Request validation and dispatch\<close>

text \<open>
  After a start, the route of a configured button finds the accessory exactly when the
  cache held one with the UUID of the button.
\<close>

lemma launch_find_cached:
  "List.find (\<lambda>a. UUID a = u) (accessories (launch gen config cache)) = None
   \<longleftrightarrow> List.find (\<lambda>a. UUID a = u) cache = None"
  by (rule find_None_strip [OF launch_strip])

lemma restored_button_found:
  assumes "validationResult req = []" and "buttonName \<in> set (configured config)"
    and "List.find (\<lambda>a. UUID a = gen buttonName) cache \<noteq> None"
  shows "fst (route_handler gen buttonName req (launch gen config cache)) = Response 200 (Text ''OK'')"
proof -
  from assms(3) obtain acc
    where "List.find (\<lambda>a. UUID a = gen buttonName) (accessories (launch gen config cache)) = Some acc"
    using launch_find_cached [of "gen buttonName" gen config cache] by auto
  moreover from assms(2) have "gen buttonName \<in> dom (accessoryHandlers (launch gen config cache))"
    unfolding launch_dom by (rule imageI)
  then obtain h where "accessoryHandlers (launch gen config cache) (gen buttonName) = Some h"
    by (auto simp add: dom_def)
  ultimately show ?thesis
    using assms(1) by (simp add: route_handler_def Let_def)
qed

lemma added_button_not_found:
  assumes "validationResult req = []"
    and "List.find (\<lambda>a. UUID a = gen buttonName) cache = None"
  shows "route_handler gen buttonName req (launch gen config cache)
           = (Response 404 (Text ''Button not found.''), launch gen config cache)"
proof -
  from assms(2) have "List.find (\<lambda>a. UUID a = gen buttonName) (accessories (launch gen config cache)) = None"
    using launch_find_cached [of "gen buttonName" gen config cache] by simp
  with assms(1) show ?thesis
    by (simp add: route_handler_def Let_def)
qed

lemma validation_fails_iff:
  "validationResult req \<noteq> [] \<longleftrightarrow>
     \<not> (isIn (query_event req) validEvents \<or> isIn (body_event req) validEvents
        \<or> isIn (header_event req) validEvents)
     \<or> (case header_battery req of None \<Rightarrow> False | Some s \<Rightarrow> \<not> isInt s 0 100)"
  by (simp add: validationResult_def oneOf_def check_event_def check_battery_def split: option.splits)

text \<open>
  A request that passes validation carries an event in some source, so the cast of the
  route is harmless.
\<close>

lemma accepted_request_has_event:
  assumes "validationResult req = []"
  shows "request_event req \<noteq> None"
proof -
  have present: "v \<noteq> None" if "isIn v validEvents" for v
    using that by (cases v) (simp_all add: isIn_def toString_def validEvents_def)
  from assms have "isIn (query_event req) validEvents \<or> isIn (body_event req) validEvents
        \<or> isIn (header_event req) validEvents"
    using validation_fails_iff [of req] by simp
  then have "query_event req \<noteq> None \<or> body_event req \<noteq> None \<or> header_event req \<noteq> None"
    using present by blast
  then show ?thesis
    by (auto simp add: request_event_def nullish_def split: option.splits)
qed

text \<open>
  Claim C8. A request fails validation when no source holds an accepted event token,
  or when the header \<open>button-battery-level\<close> is present and is not an integer within
  0..100. The route then answers 422 with the non-empty list of validation errors and
  leaves the platform, hence every handler, as it was.
\<close>

theorem invalid_request_rejected:
  assumes "\<not> (isIn (query_event req) validEvents \<or> isIn (body_event req) validEvents
              \<or> isIn (header_event req) validEvents)
           \<or> (case header_battery req of None \<Rightarrow> False | Some s \<Rightarrow> \<not> isInt s 0 100)"
  shows "validationResult req \<noteq> []
       \<and> route_handler gen buttonName req p = (Response 422 (Json (validationResult req)), p)"
  using assms unfolding validation_fails_iff [symmetric]
  by (simp add: route_handler_def Let_def)

text \<open>
  The event "not-a-real-event" in the query string, with a valid battery header.
\<close>

theorem invalid_request_rejected_witness:
  "\<not> isIn (query_event \<lparr>query_event = Some ''not-a-real-event'', body_event = None, header_event = None, header_battery = Some ''5''\<rparr>) validEvents
   \<and> \<not> isIn (body_event \<lparr>query_event = Some ''not-a-real-event'', body_event = None, header_event = None, header_battery = Some ''5''\<rparr>) validEvents
   \<and> \<not> isIn (header_event \<lparr>query_event = Some ''not-a-real-event'', body_event = None, header_event = None, header_battery = Some ''5''\<rparr>) validEvents
   \<and> route_handler (\<lambda>n. n) ''Door''
        \<lparr>query_event = Some ''not-a-real-event'', body_event = None, header_event = None, header_battery = Some ''5''\<rparr>
        (launch (\<lambda>n. n) \<lparr>config_port = None, config_buttons = Some [''Door'']\<rparr>
           [\<lparr>UUID = ''Door'', displayName = ''Door'', context_device = Some ''Door''\<rparr>])
      = (Response 422
           (Json [AlternativeValidationError
                    [FieldError Query ''event'' (Some ''not-a-real-event''),
                     FieldError Body ''event'' None, FieldError Header ''event'' None]]),
         launch (\<lambda>n. n) \<lparr>config_port = None, config_buttons = Some [''Door'']\<rparr>
           [\<lparr>UUID = ''Door'', displayName = ''Door'', context_device = Some ''Door''\<rparr>])"
proof -
  let ?req = "\<lparr>query_event = Some ''not-a-real-event'', body_event = None, header_event = None, header_battery = Some ''5''\<rparr>"
  have fails: "\<not> (isIn (query_event ?req) validEvents \<or> isIn (body_event ?req) validEvents
              \<or> isIn (header_event ?req) validEvents)
           \<or> (case header_battery ?req of None \<Rightarrow> False | Some s \<Rightarrow> \<not> isInt s 0 100)"
    by (simp add: isIn_def toString_def validEvents_def)
  have five: "isInt ''5'' 0 100"
    by (simp add: isInt_def intLeadingZeroes_def stripSign_def isDigit_def Number_def digitsValue_def)
  have errors: "validationResult ?req = [AlternativeValidationError
                    [FieldError Query ''event'' (Some ''not-a-real-event''),
                     FieldError Body ''event'' None, FieldError Header ''event'' None]]"
    by (simp add: validation_defs five)
  have none: "\<not> isIn (Some ''not-a-real-event'') validEvents" "\<not> isIn None validEvents"
    by (simp_all add: isIn_def toString_def validEvents_def)
  from none invalid_request_rejected [OF fails, of "\<lambda>n. n" "''Door''"] show ?thesis
    unfolding errors by simp
qed

text \<open>
  Claim C1. The route takes the event from the query string, else the body, else the
  header, but \<open>oneOf\<close> accepts the request as soon as any of the three holds an accepted
  token. For a button restored from the cache, a request with the query event "bogus"
  and the body event "click" passes validation, the event handed to the handler is
  "bogus", and the answer is 200 with no notification sent: the platform is unchanged.
\<close>

theorem first_present_source_not_validated:
  "validationResult
      \<lparr>query_event = Some ''bogus'', body_event = Some ''click'', header_event = None,
         header_battery = None\<rparr> = []
   \<and> request_event
      \<lparr>query_event = Some ''bogus'', body_event = Some ''click'', header_event = None,
         header_battery = None\<rparr> = Some ''bogus''
   \<and> ''bogus'' \<notin> set validEvents
   \<and> accessoryHandlers
        (launch gen \<lparr>config_port = None, config_buttons = Some [''Door'']\<rparr>
          [\<lparr>UUID = gen ''Door'', displayName = ''Door'', context_device = Some ''Door''\<rparr>])
        (gen ''Door'')
      = Some (new_handler \<lparr>UUID = gen ''Door'', displayName = ''Door'', context_device = Some ''Door''\<rparr>)
   \<and> route_handler gen ''Door''
        \<lparr>query_event = Some ''bogus'', body_event = Some ''click'', header_event = None,
           header_battery = None\<rparr>
        (launch gen \<lparr>config_port = None, config_buttons = Some [''Door'']\<rparr>
          [\<lparr>UUID = gen ''Door'', displayName = ''Door'', context_device = Some ''Door''\<rparr>])
      = (Response 200 (Text ''OK''),
         launch gen \<lparr>config_port = None, config_buttons = Some [''Door'']\<rparr>
          [\<lparr>UUID = gen ''Door'', displayName = ''Door'', context_device = Some ''Door''\<rparr>])"
  by (simp add: route_handler_def launch_defs validation_defs request_event_def
      request_battery_def nullish_def triggerEvent_cast_def triggerEvent_def switch_eventType_def
      new_handler_def)

text \<open>
  Claim C2. \<open>discoverDevices\<close> gives a newly created accessory a handler and registers
  it, but does not add it to \<open>this.accessories\<close>, the list in which the route looks the
  button up. With an empty cache and the button "Door" configured, a valid request to
  the route of "Door" is answered 404, although the handler is in the index.
\<close>

theorem new_accessory_not_found:
  "validationResult
      \<lparr>query_event = Some ''click'', body_event = None, header_event = None,
         header_battery = None\<rparr> = []
   \<and> api_registered (launch gen \<lparr>config_port = None, config_buttons = Some [''Door'']\<rparr> [])
      = [\<lparr>UUID = gen ''Door'', displayName = ''Door'', context_device = Some ''Door''\<rparr>]
   \<and> accessoryHandlers (launch gen \<lparr>config_port = None, config_buttons = Some [''Door'']\<rparr> [])
        (gen ''Door'')
      = Some (new_handler \<lparr>UUID = gen ''Door'', displayName = ''Door'', context_device = Some ''Door''\<rparr>)
   \<and> accessories (launch gen \<lparr>config_port = None, config_buttons = Some [''Door'']\<rparr> []) = []
   \<and> route_handler gen ''Door''
        \<lparr>query_event = Some ''click'', body_event = None, header_event = None,
           header_battery = None\<rparr>
        (launch gen \<lparr>config_port = None, config_buttons = Some [''Door'']\<rparr> [])
      = (Response 404 (Text ''Button not found.''),
         launch gen \<lparr>config_port = None, config_buttons = Some [''Door'']\<rparr> [])"
  by (simp add: route_handler_def launch_defs validation_defs)

end
